theory Spec2Isabelle
  imports Complex_Main
begin

section \<open>Numbers\<close>

text \<open>
  The C++ type \<open>double\<close>: a real number or one of the three IEEE special values.
  Arithmetic on finite values is exact real arithmetic: rounding, overflow, the narrowing
  of \<open>QVector3D\<close>'s components to \<open>float\<close> and the sign of zero are not modelled.
  The one exception is the count of the points of an arc, the ceiling of a quotient, which
  the rounding of the quotient can change: there (\<open>rnd\<close> below) the rounding is kept.
  Every zero divisor of this program is a \<open>+0\<close> (a result of \<open>hypot\<close>, or an
  \<open>int\<close> converted to \<open>double\<close>), so division by zero is division by \<open>+0\<close>.
\<close>

datatype double = Fin real | PInf | NInf | NaN

fun isnan :: "double \<Rightarrow> bool" where
  "isnan NaN = True"
| "isnan _ = False"

fun dsign :: "double \<Rightarrow> real" where
  "dsign (Fin a) = sgn a"
| "dsign PInf = 1"
| "dsign NInf = - 1"
| "dsign NaN = 0"

definition infOf :: "real \<Rightarrow> double" where
  "infOf s = (if 0 < s then PInf else if s < 0 then NInf else NaN)"

fun dneg :: "double \<Rightarrow> double" where
  "dneg (Fin a) = Fin (- a)"
| "dneg PInf = NInf"
| "dneg NInf = PInf"
| "dneg NaN = NaN"

fun dadd :: "double \<Rightarrow> double \<Rightarrow> double" where
  "dadd (Fin a) (Fin b) = Fin (a + b)"
| "dadd NaN _ = NaN"
| "dadd _ NaN = NaN"
| "dadd PInf NInf = NaN"
| "dadd NInf PInf = NaN"
| "dadd PInf _ = PInf"
| "dadd _ PInf = PInf"
| "dadd NInf _ = NInf"
| "dadd _ NInf = NInf"

definition dsub :: "double \<Rightarrow> double \<Rightarrow> double" where
  "dsub a b = dadd a (dneg b)"

fun dmul :: "double \<Rightarrow> double \<Rightarrow> double" where
  "dmul (Fin a) (Fin b) = Fin (a * b)"
| "dmul NaN _ = NaN"
| "dmul _ NaN = NaN"
| "dmul a b = infOf (dsign a * dsign b)"

fun ddiv :: "double \<Rightarrow> double \<Rightarrow> double" where
  "ddiv (Fin a) (Fin b) = (if b = 0 then infOf (sgn a) else Fin (a / b))"
| "ddiv NaN _ = NaN"
| "ddiv _ NaN = NaN"
| "ddiv (Fin a) _ = Fin 0"
| "ddiv a (Fin b) = infOf (dsign a * (if b < 0 then - 1 else 1))"
| "ddiv _ _ = NaN"

fun dsqrt :: "double \<Rightarrow> double" where
  "dsqrt (Fin a) = (if a < 0 then NaN else Fin (sqrt a))"
| "dsqrt PInf = PInf"
| "dsqrt NInf = NaN"
| "dsqrt NaN = NaN"

text \<open>\<open>hypot\<close> is infinite as soon as one argument is, even when the other is not a number.\<close>

fun hypot :: "double \<Rightarrow> double \<Rightarrow> double" where
  "hypot (Fin a) (Fin b) = Fin (sqrt (a * a + b * b))"
| "hypot PInf _ = PInf"
| "hypot NInf _ = PInf"
| "hypot _ PInf = PInf"
| "hypot _ NInf = PInf"
| "hypot _ _ = NaN"

text \<open>\<open>pow(a, 2.0)\<close>.\<close>

definition pow2 :: "double \<Rightarrow> double" where
  "pow2 a = dmul a a"

fun dabs :: "double \<Rightarrow> double" where
  "dabs (Fin a) = Fin \<bar>a\<bar>"
| "dabs PInf = PInf"
| "dabs NInf = PInf"
| "dabs NaN = NaN"

fun datan :: "double \<Rightarrow> double" where
  "datan (Fin a) = Fin (arctan a)"
| "datan PInf = Fin (pi / 2)"
| "datan NInf = Fin (- (pi / 2))"
| "datan NaN = NaN"

fun dcos :: "double \<Rightarrow> double" where
  "dcos (Fin a) = Fin (cos a)"
| "dcos _ = NaN"

fun dsin :: "double \<Rightarrow> double" where
  "dsin (Fin a) = Fin (sin a)"
| "dsin _ = NaN"

fun dceil :: "double \<Rightarrow> double" where
  "dceil (Fin a) = Fin (of_int \<lceil>a\<rceil>)"
| "dceil a = a"

text \<open>Comparisons: each is false as soon as an operand is not a number, but \<open>!=\<close>.\<close>

fun dlt :: "double \<Rightarrow> double \<Rightarrow> bool" where
  "dlt (Fin a) (Fin b) = (a < b)"
| "dlt NaN _ = False"
| "dlt _ NaN = False"
| "dlt _ NInf = False"
| "dlt PInf _ = False"
| "dlt _ _ = True"

definition deq :: "double \<Rightarrow> double \<Rightarrow> bool" where
  "deq a b = (\<not> isnan a \<and> a = b)"

definition dle :: "double \<Rightarrow> double \<Rightarrow> bool" where
  "dle a b = (dlt a b \<or> deq a b)"

definition dgt :: "double \<Rightarrow> double \<Rightarrow> bool" where
  "dgt a b = dlt b a"

definition dge :: "double \<Rightarrow> double \<Rightarrow> bool" where
  "dge a b = dle b a"

definition dne :: "double \<Rightarrow> double \<Rightarrow> bool" where
  "dne a b = (\<not> deq a b)"

definition M_PI :: double where
  "M_PI = Fin pi"

text \<open>
  The rounding of the exact result of an operation to a \<open>double\<close>, for a rounding function
  \<open>rd\<close> on the reals (on the machine: to the nearest \<open>double\<close>); nothing is assumed of
  \<open>rd\<close>, and the identity gives exact arithmetic.
\<close>

fun rnd :: "(real \<Rightarrow> real) \<Rightarrow> double \<Rightarrow> double" where
  "rnd rd (Fin a) = Fin (rd a)"
| "rnd rd a = a"

text \<open>
  The conversion \<open>(int) d\<close> to a 32-bit \<open>int\<close> truncates towards zero; its behaviour is
  undefined (\<open>None\<close>) when the truncated value is out of range or \<open>d\<close> is not finite.
\<close>

definition dtrunc :: "real \<Rightarrow> int" where
  "dtrunc a = (if 0 \<le> a then \<lfloor>a\<rfloor> else \<lceil>a\<rceil>)"

fun toInt :: "double \<Rightarrow> int option" where
  "toInt (Fin a) =
     (if - (2 ^ 31) \<le> dtrunc a \<and> dtrunc a < 2 ^ 31 then Some (dtrunc a) else None)"
| "toInt _ = None"

section \<open>Characters and strings\<close>

text \<open>
  A \<open>QString\<close> is a list of characters. \<open>QChar\<close>'s 16-bit code units are narrowed to the
  8-bit characters of HOL, read as Latin-1; the character classes below are Qt's on that
  range.
\<close>

definition isDigit :: "char \<Rightarrow> bool" where
  "isDigit c = (let n = (of_char c :: nat) in 48 \<le> n \<and> n \<le> 57)"

definition isLetter :: "char \<Rightarrow> bool" where
  "isLetter c =
     (let n = (of_char c :: nat)
      in (65 \<le> n \<and> n \<le> 90) \<or> (97 \<le> n \<and> n \<le> 122) \<or> n = 170 \<or> n = 181 \<or> n = 186
         \<or> (192 \<le> n \<and> n \<le> 214) \<or> (216 \<le> n \<and> n \<le> 246) \<or> 248 \<le> n)"

definition isSpace :: "char \<Rightarrow> bool" where
  "isSpace c = (let n = (of_char c :: nat) in (9 \<le> n \<and> n \<le> 13) \<or> n = 32 \<or> n = 133 \<or> n = 160)"

text \<open>
  \<open>c.toUpper().toLatin1()\<close>: the upper-case form when it is a Latin-1 character; the
  upper-case forms of \<open>0xB5\<close> and \<open>0xFF\<close> are outside Latin-1, where \<open>toLatin1\<close> is 0.
\<close>

definition toUpperLatin1 :: "char \<Rightarrow> char" where
  "toUpperLatin1 c =
     (let n = (of_char c :: nat)
      in if (97 \<le> n \<and> n \<le> 122) \<or> (224 \<le> n \<and> n \<le> 254 \<and> n \<noteq> 247) then char_of (n - 32)
         else if n = 181 \<or> n = 255 then char_of (0 :: nat)
         else c)"

definition toLower :: "char \<Rightarrow> char" where
  "toLower c =
     (let n = (of_char c :: nat)
      in if (65 \<le> n \<and> n \<le> 90) \<or> (192 \<le> n \<and> n \<le> 222 \<and> n \<noteq> 215) then char_of (n + 32) else c)"

subsection \<open>\<open>QString::toDouble\<close>\<close>

text \<open>
  \<open>toDouble\<close> is Qt's, not this repository's. It is modelled after its documentation: the
  string, without surrounding white space, is read in the C locale as
  \<open>[+|-] digits [. digits] [(e|E) [+|-] digits]\<close> with a digit in the mantissa, or as one of
  \<open>nan\<close>, \<open>inf\<close>, \<open>+inf\<close>, \<open>-inf\<close> in either case; any other string, the empty one
  too, is a failed conversion, whose result is 0.0.
\<close>

definition digitsVal :: "string \<Rightarrow> nat" where
  "digitsVal s = foldl (\<lambda>acc c. acc * 10 + (of_char c - 48)) 0 s"

definition stripSign :: "string \<Rightarrow> bool \<times> string" where
  "stripSign s =
     (case s of
        [] \<Rightarrow> (False, [])
      | c # r \<Rightarrow> if c = CHR ''-'' then (True, r) else if c = CHR ''+'' then (False, r) else (False, s))"

definition parseExponent :: "string \<Rightarrow> int option" where
  "parseExponent s =
     (case s of
        [] \<Rightarrow> Some 0
      | c # r \<Rightarrow>
          if c = CHR ''e'' \<or> c = CHR ''E'' then
            (case stripSign r of
               (neg, ds) \<Rightarrow>
                 if ds \<noteq> [] \<and> list_all isDigit ds
                 then Some (if neg then - int (digitsVal ds) else int (digitsVal ds))
                 else None)
          else None)"

definition scale10 :: "real \<Rightarrow> int \<Rightarrow> real" where
  "scale10 m e = (if 0 \<le> e then m * 10 ^ nat e else m / 10 ^ nat (- e))"

definition parseDecimal :: "string \<Rightarrow> real option" where
  "parseDecimal s =
     (case stripSign s of
        (neg, s1) \<Rightarrow>
          (let ip = takeWhile isDigit s1;
               r1 = dropWhile isDigit s1;
               fp = (case r1 of [] \<Rightarrow> [] | c # r \<Rightarrow> if c = CHR ''.'' then takeWhile isDigit r else []);
               r2 = (case r1 of [] \<Rightarrow> [] | c # r \<Rightarrow> if c = CHR ''.'' then dropWhile isDigit r else r1)
           in if ip = [] \<and> fp = [] then None
              else (case parseExponent r2 of
                      None \<Rightarrow> None
                    | Some e \<Rightarrow>
                        (let m = real (digitsVal ip) + real (digitsVal fp) / 10 ^ length fp
                         in Some (scale10 (if neg then - m else m) e)))))"

definition trimmed :: "string \<Rightarrow> string" where
  "trimmed s = rev (dropWhile isSpace (rev (dropWhile isSpace s)))"

definition parseNumber :: "string \<Rightarrow> double option" where
  "parseNumber s =
     (let t = map toLower (trimmed s)
      in if t = ''nan'' then Some NaN
         else if t = ''inf'' \<or> t = ''+inf'' then Some PInf
         else if t = ''-inf'' then Some NInf
         else map_option Fin (parseDecimal t))"

definition toDouble :: "string \<Rightarrow> double" where
  "toDouble s = (case parseNumber s of None \<Rightarrow> Fin 0 | Some d \<Rightarrow> d)"

section \<open>Tokens and coordinates\<close>

text \<open>
  \<open>splitCommand\<close>: the loop over the characters of the command, with the list \<open>l\<close>, the
  flag \<open>readNumeric\<close> and the buffer \<open>sb\<close> as its state.
\<close>

fun splitLoop :: "string \<Rightarrow> string list \<Rightarrow> bool \<Rightarrow> string \<Rightarrow> string list \<times> string" where
  "splitLoop [] l readNumeric sb = (l, sb)"
| "splitLoop (c # cs) l readNumeric sb =
     (if readNumeric \<and> \<not> isDigit c \<and> c \<noteq> CHR ''.'' then
        splitLoop cs (l @ [sb]) False (if isLetter c then [c] else [])
      else if isDigit c \<or> c = CHR ''.'' \<or> c = CHR ''-'' then
        splitLoop cs l True (sb @ [c])
      else if isLetter c then splitLoop cs l readNumeric (sb @ [c])
      else splitLoop cs l readNumeric sb)"

definition splitCommand :: "string \<Rightarrow> string list" where
  "splitCommand command =
     (case splitLoop command [] False [] of
        (l, sb) \<Rightarrow> if length sb > 0 then l @ [sb] else l)"

fun parseCoord :: "string list \<Rightarrow> char \<Rightarrow> double" where
  "parseCoord [] c = NaN"
| "parseCoord (t # ts) c =
     (if length t > 0 \<and> toUpperLatin1 (hd t) = toUpperLatin1 c then toDouble (drop 1 t)
      else parseCoord ts c)"

text \<open>The test of \<open>parseCoord\<close>'s loop: the token \<open>t\<close> carries the address \<open>c\<close>.\<close>

abbreviation hasAddress :: "string \<Rightarrow> char \<Rightarrow> bool" where
  "hasAddress t c \<equiv> length t > 0 \<and> toUpperLatin1 (hd t) = toUpperLatin1 c"

section \<open>Points\<close>

record QVector3D =
  vx :: double
  vy :: double
  vz :: double

text \<open>\<open>updatePointWithCommand(initial, x, y, z, absoluteMode)\<close>.\<close>

definition updatePointWithCommand ::
  "QVector3D \<Rightarrow> double \<Rightarrow> double \<Rightarrow> double \<Rightarrow> bool \<Rightarrow> QVector3D" where
  "updatePointWithCommand initial x y z absoluteMode =
     (let newPoint = \<lparr>vx = vx initial, vy = vy initial, vz = vz initial\<rparr>
      in if absoluteMode then
           (let p1 = (if \<not> isnan x then newPoint\<lparr>vx := x\<rparr> else newPoint);
                p2 = (if \<not> isnan y then p1\<lparr>vy := y\<rparr> else p1)
            in if \<not> isnan z then p2\<lparr>vz := z\<rparr> else p2)
         else
           (let p1 = (if \<not> isnan x then newPoint\<lparr>vx := dadd (vx newPoint) x\<rparr> else newPoint);
                p2 = (if \<not> isnan y then p1\<lparr>vy := dadd (vy p1) y\<rparr> else p1)
            in if \<not> isnan z then p2\<lparr>vz := dadd (vz p2) z\<rparr> else p2))"

text \<open>\<open>updatePointWithCommand(commandArgs, initial, absoluteMode)\<close>, on a token list.\<close>

definition updatePointWithCommandArgs :: "string list \<Rightarrow> QVector3D \<Rightarrow> bool \<Rightarrow> QVector3D" where
  "updatePointWithCommandArgs commandArgs initial absoluteMode =
     (let x = parseCoord commandArgs CHR ''X'';
          y = parseCoord commandArgs CHR ''Y'';
          z = parseCoord commandArgs CHR ''Z''
      in updatePointWithCommand initial x y z absoluteMode)"

text \<open>\<open>updatePointWithCommand(command, initial, absoluteMode)\<close>, on a command string.\<close>

definition updatePointWithCommandString :: "string \<Rightarrow> QVector3D \<Rightarrow> bool \<Rightarrow> QVector3D" where
  "updatePointWithCommandString command initial absoluteMode =
     updatePointWithCommandArgs (splitCommand command) initial absoluteMode"

section \<open>Arc centres\<close>

text \<open>
  \<open>convertRToCenter\<close>. A default-constructed \<open>QVector3D\<close> is the null vector, and the
  function never sets the centre's Z. The assignment \<open>radius = -radius\<close> changes only the
  local copy of the parameter, which is not read again.
\<close>

definition convertRToCenter ::
  "QVector3D \<Rightarrow> QVector3D \<Rightarrow> double \<Rightarrow> bool \<Rightarrow> bool \<Rightarrow> QVector3D" where
  "convertRToCenter start endp radius absoluteIJK clockwise =
     (let R = radius;
          center = \<lparr>vx = Fin 0, vy = Fin 0, vz = Fin 0\<rparr>;
          x = dsub (vx endp) (vx start);
          y = dsub (vy endp) (vy start);
          h0 = dsub (dsub (dmul (dmul (Fin 4) R) R) (dmul x x)) (dmul y y);
          h1 = ddiv (dneg (dsqrt h0)) (hypot x y);
          h2 = (if \<not> clockwise then dneg h1 else h1);
          h_x2_div_d = (if dlt R (Fin 0) then dneg h2 else h2);
          offsetX = dmul (Fin (1 / 2)) (dsub x (dmul y h_x2_div_d));
          offsetY = dmul (Fin (1 / 2)) (dadd y (dmul x h_x2_div_d))
      in if \<not> absoluteIJK then center\<lparr>vx := dadd (vx start) offsetX, vy := dadd (vy start) offsetY\<rparr>
         else center\<lparr>vx := offsetX, vy := offsetY\<rparr>)"

text \<open>What \<open>convertRToCenter\<close> writes to the debug stream; nothing of it reaches the caller.\<close>

definition convertRToCenterDebug :: "QVector3D \<Rightarrow> QVector3D \<Rightarrow> double \<Rightarrow> string list" where
  "convertRToCenterDebug start endp radius =
     (let R = radius;
          x = dsub (vx endp) (vx start);
          y = dsub (vy endp) (vy start);
          h0 = dsub (dsub (dmul (dmul (Fin 4) R) R) (dmul x x)) (dmul y y)
      in if dlt h0 (Fin 0) then [''Error computing arc radius.''] else [])"



section \<open>Angles\<close>

text \<open>
  \<open>getAngle\<close>; \<open>abs\<close> is read as the absolute value of a \<open>double\<close>. When a delta is not
  a number no branch of the quadrant test is taken and the angle stays 0.0.
\<close>

definition getAngle :: "QVector3D \<Rightarrow> QVector3D \<Rightarrow> double" where
  "getAngle start endp =
     (let deltaX = dsub (vx endp) (vx start);
          deltaY = dsub (vy endp) (vy start)
      in if dne deltaX (Fin 0) then
           (if dgt deltaX (Fin 0) \<and> dge deltaY (Fin 0) then datan (ddiv deltaY deltaX)
            else if dlt deltaX (Fin 0) \<and> dge deltaY (Fin 0) then
              dsub M_PI (dabs (datan (ddiv deltaY deltaX)))
            else if dlt deltaX (Fin 0) \<and> dlt deltaY (Fin 0) then
              dadd M_PI (dabs (datan (ddiv deltaY deltaX)))
            else if dgt deltaX (Fin 0) \<and> dlt deltaY (Fin 0) then
              dsub (dmul M_PI (Fin 2)) (dabs (datan (ddiv deltaY deltaX)))
            else Fin 0)
         else if dgt deltaY (Fin 0) then ddiv M_PI (Fin 2)
         else ddiv (dmul M_PI (Fin 3)) (Fin 2))"

definition calculateSweep :: "double \<Rightarrow> double \<Rightarrow> bool \<Rightarrow> double" where
  "calculateSweep startAngle endAngle isCw =
     (if deq startAngle endAngle then dmul M_PI (Fin 2)
      else
        (let endAngle' = (if deq endAngle (Fin 0) then dmul M_PI (Fin 2) else endAngle)
         in if \<not> isCw \<and> dlt endAngle' startAngle then
              dadd (dsub (dmul M_PI (Fin 2)) startAngle) endAngle'
            else if isCw \<and> dgt endAngle' startAngle then
              dadd (dsub (dmul M_PI (Fin 2)) endAngle') startAngle
            else dabs (dsub endAngle' startAngle)))"

section \<open>Points along an arc\<close>

text \<open>
  The loop of the eight-argument \<open>generatePointsAlongArcBDring\<close>, from its counter \<open>i\<close>
  on; \<open>radius\<close> is the radius after the function's own ``calculate if necessary''.
\<close>

function arcLoop ::
  "int \<Rightarrow> int \<Rightarrow> bool \<Rightarrow> double \<Rightarrow> double \<Rightarrow> double \<Rightarrow> QVector3D \<Rightarrow> double \<Rightarrow>
   QVector3D \<Rightarrow> QVector3D list \<Rightarrow> QVector3D list" where
  "arcLoop i numPoints isCw startAngle sweep radius center zIncrement lineEnd segments =
     (if i < numPoints then
        (let step = ddiv (dmul (Fin (of_int i)) sweep) (Fin (of_int numPoints));
             angle0 = (if isCw then dsub startAngle step else dadd startAngle step);
             angle = (if dge angle0 (dmul M_PI (Fin 2)) then dsub angle0 (dmul M_PI (Fin 2))
                      else angle0);
             lineEnd' = lineEnd\<lparr>vx := dadd (dmul (dcos angle) radius) (vx center),
                                 vy := dadd (dmul (dsin angle) radius) (vy center),
                                 vz := dadd (vz lineEnd) zIncrement\<rparr>
         in arcLoop (i + 1) numPoints isCw startAngle sweep radius center zIncrement lineEnd'
              (segments @ [lineEnd']))
      else segments)"
  by pat_completeness auto
termination
  by (relation "measure (\<lambda>(i, numPoints, _). nat (numPoints - i))") auto

declare arcLoop.simps [simp del]

text \<open>The radius the eight-argument overload works with.\<close>

definition pointsRadius :: "QVector3D \<Rightarrow> QVector3D \<Rightarrow> double \<Rightarrow> double" where
  "pointsRadius p1 center radius =
     (if deq radius (Fin 0) then
        dsqrt (dadd (pow2 (dsub (vx p1) (vx center))) (pow2 (dsub (vy p1) (vy center))))
      else radius)"

text \<open>
  \<open>generatePointsAlongArcBDring(p1, p2, center, isCw, radius, startAngle, sweep, numPoints)\<close>.
\<close>

definition generatePointsAlongArcBDringPoints ::
  "QVector3D \<Rightarrow> QVector3D \<Rightarrow> QVector3D \<Rightarrow> bool \<Rightarrow> double \<Rightarrow> double \<Rightarrow> double \<Rightarrow> int \<Rightarrow>
   QVector3D list" where
  "generatePointsAlongArcBDringPoints p1 p2 center isCw radius startAngle sweep numPoints =
     (let lineEnd = \<lparr>vx = vx p2, vy = vy p2, vz = vz p1\<rparr>;
          radius' = pointsRadius p1 center radius;
          zIncrement = ddiv (dsub (vz p2) (vz p1)) (Fin (of_int numPoints));
          segments = arcLoop 1 numPoints isCw startAngle sweep radius' center zIncrement lineEnd []
      in segments @ [p2])"

text \<open>The radius the seven-argument function works with.\<close>

definition arcRadius :: "QVector3D \<Rightarrow> QVector3D \<Rightarrow> QVector3D \<Rightarrow> double \<Rightarrow> double" where
  "arcRadius start endp center R =
     (if deq R (Fin 0) then
        dsqrt (dadd (pow2 (dsub (vx start) (vx center))) (pow2 (dsub (vy endp) (vy center))))
      else R)"

text \<open>
  The sweep of the seven-argument function, and its \<open>numPoints\<close>, with every product and
  quotient rounded by \<open>rd\<close>: \<open>None\<close> where the conversion of the ceiling to \<open>int\<close> is
  undefined.
\<close>

definition arcSweep :: "QVector3D \<Rightarrow> QVector3D \<Rightarrow> QVector3D \<Rightarrow> bool \<Rightarrow> double" where
  "arcSweep start endp center clockwise =
     calculateSweep (getAngle center start) (getAngle center endp) clockwise"

definition arcNumPoints ::
  "(real \<Rightarrow> real) \<Rightarrow> double \<Rightarrow> double \<Rightarrow> double \<Rightarrow> double \<Rightarrow> int option" where
  "arcNumPoints rd sweep radius minArcLength arcSegmentLength =
     (let arcLength = rnd rd (dmul sweep radius);
          arcSegmentLength' =
            (if dle arcSegmentLength (Fin 0) \<and> dgt minArcLength (Fin 0)
             then rnd rd (ddiv (rnd rd (dmul sweep radius)) minArcLength) else arcSegmentLength)
      in if dgt arcSegmentLength' (Fin 0)
         then toInt (dceil (rnd rd (ddiv arcLength arcSegmentLength')))
         else Some 20)"

text \<open>
  \<open>generatePointsAlongArcBDring(start, end, center, clockwise, R, minArcLength,
  arcSegmentLength)\<close>.
\<close>

definition generatePointsAlongArcBDring ::
  "(real \<Rightarrow> real) \<Rightarrow> QVector3D \<Rightarrow> QVector3D \<Rightarrow> QVector3D \<Rightarrow> bool \<Rightarrow> double \<Rightarrow> double \<Rightarrow>
   double \<Rightarrow> QVector3D list option" where
  "generatePointsAlongArcBDring rd start endp center clockwise R minArcLength arcSegmentLength =
     (let radius = arcRadius start endp center R;
          startAngle = getAngle center start;
          sweep = arcSweep start endp center clockwise;
          arcLength = rnd rd (dmul sweep radius)
      in if dgt minArcLength (Fin 0) \<and> dlt arcLength minArcLength then Some []
         else
           (case arcNumPoints rd sweep radius minArcLength arcSegmentLength of
              None \<Rightarrow> None
            | Some numPoints \<Rightarrow>
                Some (generatePointsAlongArcBDringPoints start endp center clockwise radius
                        startAngle sweep numPoints)))"

section \<open>The tokenizer\<close>

lemma digit_not_letter: "isDigit c \<Longrightarrow> \<not> isLetter c"
  by (auto simp: isDigit_def isLetter_def Let_def)

lemma dot_minus_not_letter: "\<not> isLetter CHR ''.''" "\<not> isLetter CHR ''-''"
  by (simp_all add: isLetter_def)

lemma splitLoop_letters:
  "splitLoop s l rn sb = (l', sb') \<Longrightarrow>
     filter isLetter (concat l' @ sb') = filter isLetter (concat l @ sb) @ filter isLetter s"
proof (induction s arbitrary: l rn sb)
  case Nil
  then show ?case by simp
next
  case (Cons c cs)
  then show ?case
    by (auto simp: digit_not_letter dot_minus_not_letter split: if_splits dest!: Cons.IH)
qed

lemma splitCommand_letters:
  "filter isLetter (concat (splitCommand s)) = filter isLetter s"
proof -
  obtain l' sb' where r: "splitLoop s [] False [] = (l', sb')" by (cases "splitLoop s [] False []")
  from splitLoop_letters [OF r] show ?thesis
    by (cases "sb' = []") (simp_all add: splitCommand_def r)
qed

lemma splitLoop_no_numeric:
  "\<forall>c\<in>set s. \<not> isDigit c \<and> c \<noteq> CHR ''.'' \<and> c \<noteq> CHR ''-'' \<Longrightarrow>
     splitLoop s l False sb = (l, sb @ filter isLetter s)"
  by (induction s arbitrary: sb) auto

lemma splitLoop_extends:
  "splitLoop s l rn sb = (l', sb') \<Longrightarrow>
     (\<exists>k. l' = l \<and> sb' = sb @ k) \<or> (\<exists>k ts. l' = l @ (sb @ k) # ts)"
proof (induction s arbitrary: l rn sb)
  case Nil
  then show ?case by simp
next
  case (Cons c cs)
  show ?case
  proof (cases "rn \<and> \<not> isDigit c \<and> c \<noteq> CHR ''.''")
    case True
    with Cons.prems have "splitLoop cs (l @ [sb]) False (if isLetter c then [c] else []) = (l', sb')"
      by simp
    from Cons.IH [OF this] show ?thesis by auto
  next
    case False
    show ?thesis
    proof (cases "isDigit c \<or> c = CHR ''.'' \<or> c = CHR ''-''")
      case True
      with False Cons.prems have "splitLoop cs l True (sb @ [c]) = (l', sb')" by auto
      from Cons.IH [OF this] show ?thesis by auto
    next
      case n: False
      show ?thesis
      proof (cases "isLetter c")
        case True
        with False n Cons.prems have "splitLoop cs l rn (sb @ [c]) = (l', sb')" by auto
        from Cons.IH [OF this] show ?thesis by auto
      next
        case l: False
        with False n Cons.prems have "splitLoop cs l rn sb = (l', sb')" by auto
        from Cons.IH [OF this] show ?thesis by auto
      qed
    qed
  qed
qed

lemma splitLoop_append:
  "\<forall>c\<in>set s. \<not> isDigit c \<and> c \<noteq> CHR ''.'' \<and> c \<noteq> CHR ''-'' \<Longrightarrow>
     splitLoop (s @ r) l False sb = splitLoop r l False (sb @ filter isLetter s)"
  by (induction s arbitrary: sb) auto

lemma splitLoop_numeric_run_ends:
  assumes "\<forall>c\<in>set m. \<not> isDigit c \<and> c \<noteq> CHR ''.'' \<and> c \<noteq> CHR ''-''"
  shows "splitLoop m l True sb = (if m = [] then (l, sb) else (l @ [sb], filter isLetter m))"
proof (cases m)
  case Nil
  then show ?thesis by simp
next
  case (Cons c cs)
  with assms have "\<forall>c\<in>set cs. \<not> isDigit c \<and> c \<noteq> CHR ''.'' \<and> c \<noteq> CHR ''-''"
    and "\<not> isDigit c" and "c \<noteq> CHR ''.''" by simp_all
  then show ?thesis
    by (simp add: Cons splitLoop_no_numeric)
qed

lemma splitLoop_tail:
  assumes "q \<noteq> []" and "isDigit (last q) \<or> last q = CHR ''.'' \<or> last q = CHR ''-''"
    and "\<forall>c\<in>set m. \<not> isDigit c \<and> c \<noteq> CHR ''.'' \<and> c \<noteq> CHR ''-''"
  shows "splitLoop (q @ m) l rn sb =
           (case splitLoop q l rn sb of
              (l', sb') \<Rightarrow> if sb' = [] then (l', filter isLetter m)
                           else if m = [] then (l', sb') else (l' @ [sb'], filter isLetter m))"
  using assms(1,2)
proof (induction q arbitrary: l rn sb)
  case Nil
  then show ?case by simp
next
  case (Cons x q)
  show ?case
  proof (cases "q = []")
    case True
    with Cons.prems have x: "isDigit x \<or> x = CHR ''.'' \<or> x = CHR ''-''" by simp
    show ?thesis
    proof (cases "rn \<and> \<not> isDigit x \<and> x \<noteq> CHR ''.''")
      case b1: True
      with x have "x = CHR ''-''" by blast
      with b1 True show ?thesis
        by (simp add: dot_minus_not_letter splitLoop_no_numeric [OF assms(3)])
    next
      case False
      with x True show ?thesis
        by (auto simp: splitLoop_numeric_run_ends [OF assms(3)])
    qed
  next
    case False
    with Cons.prems have "isDigit (last q) \<or> last q = CHR ''.'' \<or> last q = CHR ''-''" by simp
    note ih = Cons.IH [OF False this]
    show ?thesis by (simp add: ih)
  qed
qed

lemma splitCommand_tail:
  assumes "q = [] \<or> isDigit (last q) \<or> last q = CHR ''.'' \<or> last q = CHR ''-''"
    and "\<forall>c\<in>set m. \<not> isDigit c \<and> c \<noteq> CHR ''.'' \<and> c \<noteq> CHR ''-''"
  shows "splitCommand (q @ m) =
           splitCommand q @ (if filter isLetter m = [] then [] else [filter isLetter m])"
proof (cases "q = []")
  case True
  then show ?thesis
    by (simp add: splitCommand_def splitLoop_no_numeric [OF assms(2)])
next
  case False
  with assms(1) have n: "isDigit (last q) \<or> last q = CHR ''.'' \<or> last q = CHR ''-''" by simp
  obtain l' sb' where r: "splitLoop q [] False [] = (l', sb')"
    by (cases "splitLoop q [] False []")
  show ?thesis
    by (simp add: splitCommand_def splitLoop_tail [OF False n assms(2)] r)
qed

lemma splitLoop_merge:
  assumes "\<forall>c\<in>set m. \<not> isDigit c \<and> c \<noteq> CHR ''.'' \<and> c \<noteq> CHR ''-''" and "m \<noteq> []"
    and "isDigit d \<or> d = CHR ''.'' \<or> d = CHR ''-''"
  shows "splitLoop (m @ d # rest) l rn sb =
           splitLoop rest (if rn then l @ [sb] else l) True
             ((if rn then [] else sb) @ filter isLetter m @ [d])"
proof (cases rn)
  case False
  with assms show ?thesis by (auto simp: splitLoop_append)
next
  case True
  from assms(2) obtain c cs where m: "m = c # cs" by (cases m) auto
  with assms(1) have cs: "\<forall>c\<in>set cs. \<not> isDigit c \<and> c \<noteq> CHR ''.'' \<and> c \<noteq> CHR ''-''"
    and c: "\<not> isDigit c" "c \<noteq> CHR ''.''" by simp_all
  from True c assms(3) show ?thesis
    by (auto simp: m splitLoop_append [OF cs])
qed

lemma splitLoop_merge_tokens:
  assumes "\<forall>c\<in>set m. \<not> isDigit c \<and> c \<noteq> CHR ''.'' \<and> c \<noteq> CHR ''-''" and "m \<noteq> []"
    and "isDigit d \<or> d = CHR ''.'' \<or> d = CHR ''-''"
    and "splitLoop (p @ m @ d # rest) l rn sb = (lf, sbf)"
  shows "\<exists>ts1 k1 k2 ts2.
           (if length sbf > 0 then lf @ [sbf] else lf) = ts1 @ (k1 @ filter isLetter m @ d # k2) # ts2 \<and>
           filter isLetter (concat ts1 @ k1) = filter isLetter (concat l @ sb) @ filter isLetter p"
  using assms(4)
proof (induction p arbitrary: l rn sb)
  case Nil
  let ?l = "if rn then l @ [sb] else l"
  let ?k = "if rn then [] else sb"
  from Nil have "splitLoop rest ?l True (?k @ filter isLetter m @ [d]) = (lf, sbf)"
    by (simp add: splitLoop_merge [OF assms(1-3)])
  from splitLoop_extends [OF this]
  consider k where "lf = ?l" "sbf = (?k @ filter isLetter m @ [d]) @ k"
    | k ts where "lf = ?l @ ((?k @ filter isLetter m @ [d]) @ k) # ts"
    by blast
  then show ?case
  proof cases
    case 1
    then have "(if length sbf > 0 then lf @ [sbf] else lf) = ?l @ (?k @ filter isLetter m @ d # k) # []"
      by simp
    moreover have "filter isLetter (concat ?l @ ?k) = filter isLetter (concat l @ sb) @ filter isLetter []"
      by simp
    ultimately show ?thesis by blast
  next
    case 2
    then have "(if length sbf > 0 then lf @ [sbf] else lf)
        = ?l @ (?k @ filter isLetter m @ d # k) # (if length sbf > 0 then ts @ [sbf] else ts)"
      by simp
    moreover have "filter isLetter (concat ?l @ ?k) = filter isLetter (concat l @ sb) @ filter isLetter []"
      by simp
    ultimately show ?thesis by blast
  qed
next
  case (Cons x p)
  have step: "?case"
    if r: "splitLoop (p @ m @ d # rest) l1 rn1 sb1 = (lf, sbf)"
      and f: "filter isLetter (concat l1 @ sb1) = filter isLetter (concat l @ sb) @ filter isLetter [x]"
    for l1 rn1 sb1
  proof -
    from Cons.IH [OF r] obtain ts1 k1 k2 ts2 where
      e: "(if length sbf > 0 then lf @ [sbf] else lf) = ts1 @ (k1 @ filter isLetter m @ d # k2) # ts2"
      and g: "filter isLetter (concat ts1 @ k1) = filter isLetter (concat l1 @ sb1) @ filter isLetter p"
      by blast
    from g f have "filter isLetter (concat ts1 @ k1)
        = filter isLetter (concat l @ sb) @ filter isLetter (x # p)"
      by simp
    with e show ?thesis by blast
  qed
  show ?case
  proof (cases "rn \<and> \<not> isDigit x \<and> x \<noteq> CHR ''.''")
    case True
    with Cons.prems
    have "splitLoop (p @ m @ d # rest) (l @ [sb]) False (if isLetter x then [x] else []) = (lf, sbf)"
      by simp
    then show ?thesis
      using step [of "l @ [sb]" False "if isLetter x then [x] else []"] by simp
  next
    case b1: False
    show ?thesis
    proof (cases "isDigit x \<or> x = CHR ''.'' \<or> x = CHR ''-''")
      case True
      with b1 Cons.prems have "splitLoop (p @ m @ d # rest) l True (sb @ [x]) = (lf, sbf)"
        by auto
      moreover from True have "\<not> isLetter x"
        using digit_not_letter dot_minus_not_letter by blast
      ultimately show ?thesis using step [of l True "sb @ [x]"] by simp
    next
      case b2: False
      show ?thesis
      proof (cases "isLetter x")
        case True
        with b1 b2 Cons.prems have "splitLoop (p @ m @ d # rest) l rn (sb @ [x]) = (lf, sbf)"
          by auto
        with True show ?thesis using step [of l rn "sb @ [x]"] by simp
      next
        case False
        with b1 b2 Cons.prems have "splitLoop (p @ m @ d # rest) l rn sb = (lf, sbf)"
          by auto
        with False show ?thesis using step [of l rn sb] by simp
      qed
    qed
  qed
qed

lemma splitCommand_merge_tokens:
  assumes "\<forall>c\<in>set m. \<not> isDigit c \<and> c \<noteq> CHR ''.'' \<and> c \<noteq> CHR ''-''" and "m \<noteq> []"
    and "isDigit d \<or> d = CHR ''.'' \<or> d = CHR ''-''"
  shows "\<exists>ts1 k1 k2 ts2.
           splitCommand (p @ m @ d # rest) = ts1 @ (k1 @ filter isLetter m @ d # k2) # ts2 \<and>
           filter isLetter (concat ts1 @ k1) = filter isLetter p"
proof -
  obtain lf sbf where r: "splitLoop (p @ m @ d # rest) [] False [] = (lf, sbf)"
    by (cases "splitLoop (p @ m @ d # rest) [] False []")
  from splitLoop_merge_tokens [OF assms r] show ?thesis
    by (simp add: splitCommand_def r)
qed

text \<open>
  Claim C8, amended: the tokenizer returns a token list for every input, and it never
  rejects a letter: the letters of the input are, in order, the letters of the tokens. A
  letter is a token of its own in one situation only. The letters after the last digit,
  point or minus sign of the input (all its letters, when it has none of these) form one
  last token, so that a letter there is a one-character token exactly when it is the only
  letter there, as \<open>Y\<close> in \<open>X1 Y\<close>. Everywhere else letters are merged: the letters of a
  stretch without digit, point and minus sign are, with the digit, point or minus sign that
  ends the stretch, in one token, as \<open>G\<close> and \<open>X\<close> in \<open>G X10\<close>.
\<close>

theorem splitCommand_letters_merged:
  "filter isLetter (concat (splitCommand s)) = filter isLetter s \<and>
   ((q = [] \<or> isDigit (last q) \<or> last q = CHR ''.'' \<or> last q = CHR ''-'') \<and>
    (\<forall>c\<in>set m. \<not> isDigit c \<and> c \<noteq> CHR ''.'' \<and> c \<noteq> CHR ''-'') \<longrightarrow>
      splitCommand (q @ m) =
        splitCommand q @ (if filter isLetter m = [] then [] else [filter isLetter m])) \<and>
   ((\<forall>c\<in>set m. \<not> isDigit c \<and> c \<noteq> CHR ''.'' \<and> c \<noteq> CHR ''-'') \<and> m \<noteq> [] \<and>
    (isDigit d \<or> d = CHR ''.'' \<or> d = CHR ''-'') \<longrightarrow>
      (\<exists>ts1 k1 k2 ts2.
         splitCommand (p @ m @ d # rest) = ts1 @ (k1 @ filter isLetter m @ d # k2) # ts2 \<and>
         filter isLetter (concat ts1 @ k1) = filter isLetter p))"
proof (intro conjI impI)
  show "filter isLetter (concat (splitCommand s)) = filter isLetter s"
    by (rule splitCommand_letters)
next
  assume a: "(q = [] \<or> isDigit (last q) \<or> last q = CHR ''.'' \<or> last q = CHR ''-'') \<and>
    (\<forall>c\<in>set m. \<not> isDigit c \<and> c \<noteq> CHR ''.'' \<and> c \<noteq> CHR ''-'')"
  show "splitCommand (q @ m) =
        splitCommand q @ (if filter isLetter m = [] then [] else [filter isLetter m])"
    by (rule splitCommand_tail [OF a [THEN conjunct1] a [THEN conjunct2]])
next
  assume a: "(\<forall>c\<in>set m. \<not> isDigit c \<and> c \<noteq> CHR ''.'' \<and> c \<noteq> CHR ''-'') \<and> m \<noteq> [] \<and>
    (isDigit d \<or> d = CHR ''.'' \<or> d = CHR ''-'')"
  show "\<exists>ts1 k1 k2 ts2.
         splitCommand (p @ m @ d # rest) = ts1 @ (k1 @ filter isLetter m @ d # k2) # ts2 \<and>
         filter isLetter (concat ts1 @ k1) = filter isLetter p"
    by (rule splitCommand_merge_tokens [OF a [THEN conjunct1] a [THEN conjunct2, THEN conjunct1]
          a [THEN conjunct2, THEN conjunct2]])
qed

text \<open>
  Claim C8 says that every letter that is not immediately followed by digits becomes a
  one-character token, merged with no neighbour. The loop ends a token only where a number
  ends: \<open>XY\<close> is one token, and in \<open>G X10\<close> the letter \<open>G\<close> is merged into \<open>GX10\<close>.
\<close>

theorem splitCommand_single_letter_counterexample:
  "splitCommand ''XY'' = [''XY''] \<and> splitCommand ''G X10'' = [''GX10''] \<and>
   ''X'' \<notin> set (splitCommand ''XY'') \<and> ''G'' \<notin> set (splitCommand ''G X10'')"
  by code_simp

theorem splitCommand_letters_merged_witness:
  "splitCommand ''X1 Y'' = [''X1'', ''Y''] \<and>
   (\<exists>ts1 k1 k2 ts2. splitCommand ''G1 M X10'' = ts1 @ (k1 @ ''MX1'' @ k2) # ts2 \<and>
      filter isLetter (concat ts1 @ k1) = ''G'')"
proof -
  have a: "(''X1'' = [] \<or> isDigit (last ''X1'') \<or> last ''X1'' = CHR ''.'' \<or> last ''X1'' = CHR ''-'') \<and>
    (\<forall>c\<in>set '' Y''. \<not> isDigit c \<and> c \<noteq> CHR ''.'' \<and> c \<noteq> CHR ''-'')"
    by code_simp
  have b: "(\<forall>c\<in>set ''M X''. \<not> isDigit c \<and> c \<noteq> CHR ''.'' \<and> c \<noteq> CHR ''-'') \<and> ''M X'' \<noteq> [] \<and>
    (isDigit CHR ''1'' \<or> CHR ''1'' = CHR ''.'' \<or> CHR ''1'' = CHR ''-'')"
    by code_simp
  have c: "filter isLetter '' Y'' = ''Y''" "filter isLetter ''M X'' = ''MX''"
    "filter isLetter ''G1 '' = ''G''" "splitCommand ''X1'' = [''X1'']"
    by code_simp+
  have t1: "splitCommand (''X1'' @ '' Y'') =
      splitCommand ''X1'' @ (if filter isLetter '' Y'' = [] then [] else [filter isLetter '' Y''])"
    by (rule splitCommand_letters_merged [where q = "''X1''" and m = "'' Y''", THEN conjunct2,
          THEN conjunct1, THEN mp, OF a])
  have t2: "\<exists>ts1 k1 k2 ts2.
      splitCommand (''G1 '' @ ''M X'' @ CHR ''1'' # ''0'')
        = ts1 @ (k1 @ filter isLetter ''M X'' @ CHR ''1'' # k2) # ts2 \<and>
      filter isLetter (concat ts1 @ k1) = filter isLetter ''G1 ''"
    by (rule splitCommand_letters_merged [where m = "''M X''" and d = "CHR ''1''"
          and p = "''G1 ''" and rest = "''0''", THEN conjunct2, THEN conjunct2, THEN mp, OF b])
  from t1 t2 show ?thesis unfolding c by simp
qed

section \<open>Coordinates of a token list\<close>

lemma parseCoord_no_match:
  "\<forall>s\<in>set ts. \<not> hasAddress s c \<Longrightarrow> parseCoord ts c = NaN"
  by (induction ts) auto

lemma parseCoord_skip:
  "\<forall>s\<in>set pre. \<not> hasAddress s c \<Longrightarrow> parseCoord (pre @ ts) c = parseCoord ts c"
  by (induction pre) auto

lemma toDouble_1: "toDouble ''1'' = Fin 1"
  by code_simp

text \<open>
  Claim C2 says that among several tokens with the same address letter \<open>parseCoord\<close> returns
  the value of the last one. The loop returns at the first match: on \<open>X1 X2\<close> the result
  is 1, the value of the last matching token is 2.
\<close>

theorem parseCoord_last_counterexample:
  "parseCoord [''X1'', ''X2''] CHR ''X'' = Fin 1 \<and>
   toDouble (drop 1 (last [''X1'', ''X2''])) = Fin 2 \<and>
   parseCoord [''X1'', ''X2''] CHR ''X'' \<noteq> toDouble (drop 1 (last [''X1'', ''X2'']))"
  by code_simp

text \<open>
  Claim C2, amended: whatever follows it in the list, the first token that carries the
  address letter (in either case) decides the result, which is the numeric value of that
  token's value part.
\<close>

theorem parseCoord_first_match:
  assumes "\<forall>s\<in>set pre. \<not> hasAddress s c" and "hasAddress t c"
  shows "parseCoord (pre @ t # post) c = toDouble (drop 1 t)"
  using assms by (simp add: parseCoord_skip)

theorem parseCoord_first_match_witness:
  "parseCoord [''G1'', ''X1'', ''x2''] CHR ''X'' = Fin 1"
proof -
  have "\<forall>s\<in>set [''G1'']. \<not> hasAddress s CHR ''X''" by code_simp
  moreover have "hasAddress ''X1'' CHR ''X''" by code_simp
  ultimately have "parseCoord ([''G1''] @ ''X1'' # [''x2'']) CHR ''X'' = toDouble (drop 1 ''X1'')"
    by (rule parseCoord_first_match)
  then show ?thesis by (simp add: toDouble_1)
qed

section \<open>Updating a point\<close>

lemma updatePoint_vx: "isnan x \<Longrightarrow> vx (updatePointWithCommand p x y z m) = vx p"
  by (simp add: updatePointWithCommand_def Let_def)

lemma updatePoint_vy: "isnan y \<Longrightarrow> vy (updatePointWithCommand p x y z m) = vy p"
  by (simp add: updatePointWithCommand_def Let_def)

lemma updatePoint_vz: "isnan z \<Longrightarrow> vz (updatePointWithCommand p x y z m) = vz p"
  by (simp add: updatePointWithCommand_def Let_def)

lemma updatePoint_abs_vx: "\<not> isnan x \<Longrightarrow> vx (updatePointWithCommand p x y z True) = x"
  by (simp add: updatePointWithCommand_def Let_def)

lemma updatePoint_abs_vy: "\<not> isnan y \<Longrightarrow> vy (updatePointWithCommand p x y z True) = y"
  by (simp add: updatePointWithCommand_def Let_def)

lemma updatePoint_abs_vz: "\<not> isnan z \<Longrightarrow> vz (updatePointWithCommand p x y z True) = z"
  by (simp add: updatePointWithCommand_def Let_def)

text \<open>
  Claim C9: for each of the axes X, Y and Z that no token of the list addresses, the point
  returned by \<open>updatePointWithCommand\<close> has the prior point's value on that axis, in
  absolute and in relative mode alike.
\<close>

theorem absent_axis_unchanged:
  "((\<forall>t\<in>set args. \<not> hasAddress t CHR ''X'') \<longrightarrow>
      vx (updatePointWithCommandArgs args p absoluteMode) = vx p) \<and>
   ((\<forall>t\<in>set args. \<not> hasAddress t CHR ''Y'') \<longrightarrow>
      vy (updatePointWithCommandArgs args p absoluteMode) = vy p) \<and>
   ((\<forall>t\<in>set args. \<not> hasAddress t CHR ''Z'') \<longrightarrow>
      vz (updatePointWithCommandArgs args p absoluteMode) = vz p)"
  by (simp add: updatePointWithCommandArgs_def Let_def parseCoord_no_match
      updatePoint_vx updatePoint_vy updatePoint_vz)

theorem absent_axis_unchanged_witness:
  "vx (updatePointWithCommandArgs [''G1'', ''Y5''] \<lparr>vx = Fin 1, vy = Fin 2, vz = Fin 3\<rparr> True) = Fin 1 \<and>
   vz (updatePointWithCommandArgs [''G1'', ''Y5''] \<lparr>vx = Fin 1, vy = Fin 2, vz = Fin 3\<rparr> True) = Fin 3 \<and>
   vy (updatePointWithCommandArgs [''x7''] \<lparr>vx = Fin 1, vy = Fin 2, vz = Fin 3\<rparr> False) = Fin 2"
proof -
  have a: "\<forall>t\<in>set [''G1'', ''Y5'']. \<not> hasAddress t CHR ''X''" by code_simp
  have b: "\<forall>t\<in>set [''G1'', ''Y5'']. \<not> hasAddress t CHR ''Z''" by code_simp
  have c: "\<forall>t\<in>set [''x7'']. \<not> hasAddress t CHR ''Y''" by code_simp
  show ?thesis
    using a b c
      absent_axis_unchanged [of "[''G1'', ''Y5'']" "\<lparr>vx = Fin 1, vy = Fin 2, vz = Fin 3\<rparr>" True]
      absent_axis_unchanged [of "[''x7'']" "\<lparr>vx = Fin 1, vy = Fin 2, vz = Fin 3\<rparr>" False]
    by simp
qed

lemma parseCoord_Xnan: "parseCoord [''G1'', ''Xnan''] CHR ''X'' = NaN"
  "parseCoord [''G1'', ''Xnan''] CHR ''Y'' = NaN" "parseCoord [''G1'', ''Xnan''] CHR ''Z'' = NaN"
  "parseCoord [''Xinf''] CHR ''X'' = PInf"
  by code_simp+

text \<open>
  Claim C10 says that an axis token whose value part is empty or not numeric gives 0.0 and
  sets the axis to 0 in absolute mode. The value parts \<open>nan\<close> and \<open>inf\<close> are no numbers,
  yet \<open>toDouble\<close> converts them: \<open>Xnan\<close>, a token that \<open>splitCommand\<close> produces, gives
  NaN, the unset value, and leaves the axis unchanged; \<open>Xinf\<close> gives infinity.
\<close>

theorem valueless_axis_token_nan_counterexample:
  "splitCommand ''G1 Xnan'' = [''G1'', ''Xnan''] \<and>
   parseCoord [''G1'', ''Xnan''] CHR ''X'' = NaN \<and>
   vx (updatePointWithCommandString ''G1 Xnan'' \<lparr>vx = Fin 5, vy = Fin 6, vz = Fin 7\<rparr> True) = Fin 5 \<and>
   parseCoord [''Xinf''] CHR ''X'' = PInf"
proof -
  have s: "splitCommand ''G1 Xnan'' = [''G1'', ''Xnan'']" by code_simp
  show ?thesis
    by (simp add: s parseCoord_Xnan updatePointWithCommandString_def updatePointWithCommandArgs_def
        updatePointWithCommand_def Let_def del: parseCoord.simps)
qed

text \<open>
  Claim C10, amended: when the first token that carries an axis letter has a value part on
  which the conversion of \<open>toDouble\<close> fails (the empty one of the bare token \<open>X\<close>, or
  a text such as \<open>abc\<close> that is neither a decimal number nor one of \<open>nan\<close>, \<open>inf\<close>,
  \<open>+inf\<close>, \<open>-inf\<close>), \<open>parseCoord\<close> returns 0.0 and not the unset value, so that
  \<open>updatePointWithCommand\<close> in absolute mode sets the axis to 0.
\<close>

theorem valueless_axis_token_is_zero:
  assumes "\<forall>s\<in>set pre. \<not> hasAddress s c" and "hasAddress t c"
    and "parseNumber (drop 1 t) = None"
  shows "parseCoord (pre @ t # post) c = Fin 0 \<and>
         \<not> isnan (parseCoord (pre @ t # post) c) \<and>
         (c = CHR ''X'' \<longrightarrow> vx (updatePointWithCommandArgs (pre @ t # post) p True) = Fin 0) \<and>
         (c = CHR ''Y'' \<longrightarrow> vy (updatePointWithCommandArgs (pre @ t # post) p True) = Fin 0) \<and>
         (c = CHR ''Z'' \<longrightarrow> vz (updatePointWithCommandArgs (pre @ t # post) p True) = Fin 0)"
proof -
  have "parseCoord (pre @ t # post) c = Fin 0"
    using assms by (simp add: parseCoord_skip toDouble_def)
  then show ?thesis
    by (auto simp: updatePointWithCommandArgs_def Let_def updatePoint_abs_vx updatePoint_abs_vy
        updatePoint_abs_vz)
qed

theorem valueless_axis_token_is_zero_witness:
  "parseCoord [''G1'', ''X''] CHR ''X'' = Fin 0 \<and>
   vx (updatePointWithCommandArgs [''G1'', ''X''] \<lparr>vx = Fin 5, vy = Fin 6, vz = Fin 7\<rparr> True) = Fin 0 \<and>
   vy (updatePointWithCommandArgs [''Yabc'', ''Y3''] \<lparr>vx = Fin 5, vy = Fin 6, vz = Fin 7\<rparr> True) = Fin 0"
proof -
  have a: "\<forall>s\<in>set [''G1'']. \<not> hasAddress s CHR ''X''" by code_simp
  have b: "hasAddress ''X'' CHR ''X''" by code_simp
  have c: "parseNumber (drop 1 ''X'') = None" by code_simp
  have d: "\<forall>s\<in>set []. \<not> hasAddress s CHR ''Y''" by simp
  have e: "hasAddress ''Yabc'' CHR ''Y''" by code_simp
  have f: "parseNumber (drop 1 ''Yabc'') = None" by code_simp
  show ?thesis
    using valueless_axis_token_is_zero [OF a b c, of "[]" "\<lparr>vx = Fin 5, vy = Fin 6, vz = Fin 7\<rparr>"]
      valueless_axis_token_is_zero [OF d e f, of "[''Y3'']" "\<lparr>vx = Fin 5, vy = Fin 6, vz = Fin 7\<rparr>"]
    by simp
qed

section \<open>Arc centres from a radius\<close>

lemma dadd_NaN [simp]: "dadd a NaN = NaN" by (cases a) simp_all
lemma dmul_NaN [simp]: "dmul a NaN = NaN" by (cases a) simp_all
lemma ddiv_NaN [simp]: "ddiv a NaN = NaN" by (cases a) simp_all
lemma dsub_NaN [simp]: "dsub a NaN = NaN" "dsub NaN a = NaN" by (simp_all add: dsub_def)

lemma dsqrt_negative: "dlt a (Fin 0) \<Longrightarrow> dsqrt a = NaN"
  by (cases a) simp_all





lemma convertRToCenter_NaN:
  assumes "dlt (dsub (dsub (dmul (dmul (Fin 4) R) R)
                  (dmul (dsub (vx endp) (vx start)) (dsub (vx endp) (vx start))))
                  (dmul (dsub (vy endp) (vy start)) (dsub (vy endp) (vy start)))) (Fin 0)"
  shows "vx (convertRToCenter start endp R absoluteIJK clockwise) = NaN \<and>
         vy (convertRToCenter start endp R absoluteIJK clockwise) = NaN \<and>
         convertRToCenterDebug start endp R = [''Error computing arc radius.'']"
  using dsqrt_negative [OF assms] assms
  by (simp add: convertRToCenter_def convertRToCenterDebug_def Let_def)

text \<open>
  Claim C1 asks that a radius too small for the chord, \<open>4R\<^sup>2 - dx\<^sup>2 - dy\<^sup>2 < 0\<close>, be reported to
  the caller and that no centre with NaN components be returned. \<open>convertRToCenter\<close> sees
  the case and writes ``Error computing arc radius.'' to the debug stream, then goes on with
  the square root of the negative number: for the chord from (0, 0) to (10, 0) and the
  radius 1 the caller gets the centre (NaN, NaN, 0) and nothing else.
\<close>

theorem convertRToCenter_small_radius:
  "convertRToCenter \<lparr>vx = Fin 0, vy = Fin 0, vz = Fin 0\<rparr> \<lparr>vx = Fin 10, vy = Fin 0, vz = Fin 0\<rparr>
     (Fin 1) False True = \<lparr>vx = NaN, vy = NaN, vz = Fin 0\<rparr> \<and>
   convertRToCenterDebug \<lparr>vx = Fin 0, vy = Fin 0, vz = Fin 0\<rparr> \<lparr>vx = Fin 10, vy = Fin 0, vz = Fin 0\<rparr>
     (Fin 1) = [''Error computing arc radius.'']"
  by (simp add: convertRToCenter_def convertRToCenterDebug_def Let_def dsub_def)









section \<open>The points of an arc\<close>


lemma points_last:
  "last (generatePointsAlongArcBDringPoints p1 p2 center isCw radius startAngle sweep numPoints) = p2"
  by (simp add: generatePointsAlongArcBDringPoints_def Let_def)

lemma points_not_Nil:
  "generatePointsAlongArcBDringPoints p1 p2 center isCw radius startAngle sweep numPoints \<noteq> []"
  by (simp add: generatePointsAlongArcBDringPoints_def Let_def)


lemma generatePoints_cases:
  assumes "generatePointsAlongArcBDring rd start endp center clockwise R minArcLength
             arcSegmentLength = Some ps"
  shows "ps = [] \<or> (\<exists>n. ps = generatePointsAlongArcBDringPoints start endp center clockwise
           (arcRadius start endp center R) (getAngle center start)
           (arcSweep start endp center clockwise) n)"
  using assms unfolding generatePointsAlongArcBDring_def Let_def
  by (simp split: if_split_asm option.split_asm) blast

lemma arcNumPoints_default: "arcNumPoints rd sweep radius (Fin 0) (Fin 0) = Some 20"
  by (simp add: arcNumPoints_def Let_def dle_def dgt_def deq_def)

text \<open>
  Claim C7: the last element of every non-empty sequence that the tessellation returns is the
  end point the caller supplied, appended as it is. The eight-argument overload always
  returns a non-empty sequence ending with \<open>p2\<close>; the seven-argument function passes its
  \<open>end\<close> on as \<open>p2\<close>.
\<close>

theorem last_point_is_end:
  "last (generatePointsAlongArcBDringPoints p1 p2 center isCw radius startAngle sweep numPoints) = p2
   \<and> (generatePointsAlongArcBDring rd start endp center clockwise R minArcLength arcSegmentLength
         = Some ps \<and> ps \<noteq> [] \<longrightarrow> last ps = endp)"
proof (intro conjI impI)
  show "last (generatePointsAlongArcBDringPoints p1 p2 center isCw radius startAngle sweep numPoints)
          = p2"
    by (rule points_last)
next
  assume "generatePointsAlongArcBDring rd start endp center clockwise R minArcLength
            arcSegmentLength = Some ps \<and> ps \<noteq> []"
  then obtain n where "ps = generatePointsAlongArcBDringPoints start endp center clockwise
      (arcRadius start endp center R) (getAngle center start) (arcSweep start endp center clockwise) n"
    using generatePoints_cases by blast
  then show "last ps = endp" by (simp only: points_last)
qed

theorem last_point_is_end_witness:
  "\<exists>ps. generatePointsAlongArcBDring (\<lambda>x. x) \<lparr>vx = Fin 1, vy = Fin 0, vz = Fin 0\<rparr>
           \<lparr>vx = Fin 0, vy = Fin 1, vz = Fin 2\<rparr> \<lparr>vx = Fin 0, vy = Fin 0, vz = Fin 0\<rparr>
           False (Fin 1) (Fin 0) (Fin 0) = Some ps
         \<and> ps \<noteq> [] \<and> last ps = \<lparr>vx = Fin 0, vy = Fin 1, vz = Fin 2\<rparr>"
proof -
  let ?s = "\<lparr>vx = Fin 1, vy = Fin 0, vz = Fin 0\<rparr>"
  let ?e = "\<lparr>vx = Fin 0, vy = Fin 1, vz = Fin 2\<rparr>"
  let ?c = "\<lparr>vx = Fin 0, vy = Fin 0, vz = Fin 0\<rparr>"
  obtain ps where
    ps: "generatePointsAlongArcBDring (\<lambda>x. x) ?s ?e ?c False (Fin 1) (Fin 0) (Fin 0) = Some ps"
    and ne: "ps \<noteq> []"
    by (simp add: generatePointsAlongArcBDring_def Let_def arcNumPoints_default dgt_def
        points_not_Nil)
  from last_point_is_end [where rd = "\<lambda>x. x" and start = ?s and endp = ?e and center = ?c
      and clockwise = False and R = "Fin 1" and minArcLength = "Fin 0"
      and arcSegmentLength = "Fin 0" and ps = ps]
    ps ne
  have "last ps = ?e" by blast
  with ps ne show ?thesis by blast
qed






text \<open>In exact arithmetic the count derived from a minimum arc length is its ceiling.\<close>

lemma exact_min_length_quotient:
  fixes a m :: real
  assumes "0 < m" and "m \<le> a"
  shows "0 < a / m" and "a / (a / m) = m"
  using assms by simp_all







lemma sqrt_25: "sqrt 25 = 5" by (rule real_sqrt_unique) simp_all
lemma sqrt_9: "sqrt 9 = 3" by (rule real_sqrt_unique) simp_all

text \<open>
  Claim C5: when the radius is passed as zero, the radius used is the distance from the
  centre to the start point. The eight-argument overload computes that distance; the
  seven-argument function takes the Y of the end point in its place
  (\<open>end.y() - center.y()\<close>): with start (3, 0), end (0, 4) and centre (0, 0) it works with
  the radius 5, where the distance from the centre to the start is 3.
\<close>

theorem arcRadius_uses_end_y:
  "arcRadius \<lparr>vx = Fin 3, vy = Fin 0, vz = Fin 0\<rparr> \<lparr>vx = Fin 0, vy = Fin 4, vz = Fin 0\<rparr>
     \<lparr>vx = Fin 0, vy = Fin 0, vz = Fin 0\<rparr> (Fin 0) = Fin 5 \<and>
   pointsRadius \<lparr>vx = Fin 3, vy = Fin 0, vz = Fin 0\<rparr> \<lparr>vx = Fin 0, vy = Fin 0, vz = Fin 0\<rparr> (Fin 0)
     = Fin 3"
  by (simp add: arcRadius_def pointsRadius_def deq_def dsub_def pow2_def sqrt_25 sqrt_9)

end
